theory Spec2Isabelle
  imports Complex_Main
begin

section \<open>Values, exceptions and callables\<close>

text \<open>
  A Python exception is kept as the name of its class and its message. Raising is the
  left injection of a sum: a computation of type \<open>exn + 'a\<close> either raises or returns.
\<close>

datatype exn = Exn (kind: string) (message: string)

text \<open>
  The Python values that reach a field of a result, a statistics entry or a parameter
  description: \<open>None\<close>, a \<open>str\<close>, a \<open>bool\<close>, a \<open>float\<close> and an exception
  object used as a value.
\<close>

datatype pyval = PNone | PStr string | PBool bool | PFloat real | PErr exn

type_synonym row = "string \<rightharpoonup> pyval"

text \<open>
  A callable handed to the step as configuration: what calling it does, and its
  \<open>__name__\<close> attribute when it has one (a \<open>def\<close> or a \<open>lambda\<close> has one, a
  \<open>functools.partial\<close> object has none).
\<close>

record ('a, 'b) callable =
  fn_name :: "string option"
  call :: "'a \<Rightarrow> exn + 'b"

section \<open>The environment of the step\<close>

record http_request =
  req_method :: string
  req_url :: string
  req_headers :: "(string \<times> string option) list"
  req_data :: string

record http_response =
  status_code :: nat
  resp_text :: string

text \<open>
  What the step reads from outside the repository: the process environment
  (\<open>os.environ\<close>), the library function \<open>json.dumps\<close> on a dictionary of strings,
  and the remote endpoint, which answers a request (knowing the requests sent before
  it) with a response or makes \<open>requests.request\<close> raise.
\<close>

record env =
  environ :: "string \<rightharpoonup> string"
  json_dumps :: "(string \<times> string) list \<Rightarrow> string"
  server :: "http_request list \<Rightarrow> http_request \<Rightarrow> exn + http_response"

text \<open>
  The state the step's effects act on: the requests sent so far, oldest first, and a
  clock given by its successive readings together with the number of readings taken.
\<close>

record world =
  sent :: "http_request list"
  clock :: "nat \<Rightarrow> real"
  reads :: nat

definition requests_request ::
  "env \<Rightarrow> http_request \<Rightarrow> world \<Rightarrow> (exn + http_response) \<times> world" where
  "requests_request E rq w = (server E (sent w) rq, w\<lparr>sent := sent w @ [rq]\<rparr>)"

definition read_clock :: "world \<Rightarrow> real \<times> world" where
  "read_clock w = (clock w (reads w), w\<lparr>reads := Suc (reads w)\<rparr>)"

section \<open>Step, StepResult and the instrumentation wrapper\<close>

text \<open>
  The result of a step on one row. The attribute \<open>fields\<close> of the source is the
  field \<open>fields_map\<close> here.
\<close>

record StepResult =
  fields_map :: "string \<rightharpoonup> pyval"
  statistics :: "string \<rightharpoonup> pyval"
  input :: string

text \<open>
  The configuration of a \<open>SERPEnrichmentStep\<close>. \<open>Step.__init__\<close> is not among the
  sources: \<open>name\<close> is the value of \<open>self.name\<close> once the step is built.
\<close>

record step =
  name :: string
  prompt :: "(row, string) callable"
  postprocess :: "(string, pyval) callable option"

text \<open>
  Modelled from the spec: \<open>Step.get_params\<close> of \<open>superpipe.steps.step\<close>, which is not
  among the sources. The spec has the description of a step carry the step's name.
\<close>

definition Step_get_params :: "step \<Rightarrow> (string \<rightharpoonup> pyval)" where
  "Step_get_params s = [''name'' \<mapsto> PStr (name s)]"

text \<open>
  Modelled from the spec: the description of a failure that the wrapper records, the
  kind of the error and its message.
\<close>

definition error_description :: "exn \<Rightarrow> string" where
  "error_description e = kind e @ '': '' @ message e"

text \<open>
  Modelled from the spec: \<open>with_statistics\<close> of \<open>superpipe.steps.utils\<close>, which is not
  among the sources. The wrapped function is invoked exactly once; the elapsed time
  between two readings of the clock is recorded under \<open>latency\<close> whatever the
  outcome; a failure is caught, the statistics record it with its kind and message and
  the result is the error itself, as a value; a success is recorded as such and the
  result is the value returned.
\<close>

definition with_statistics ::
  "('x \<Rightarrow> world \<Rightarrow> (exn + pyval) \<times> world) \<Rightarrow> 'x \<Rightarrow> world
     \<Rightarrow> (pyval \<times> (string \<rightharpoonup> pyval)) \<times> world" where
  "with_statistics f x w =
     (case read_clock w of (t0, w1) \<Rightarrow>
      case f x w1 of (outcome, w2) \<Rightarrow>
      case read_clock w2 of (t1, w3) \<Rightarrow>
        (case outcome of
           Inr y \<Rightarrow>
             ((y, [''latency'' \<mapsto> PFloat (t1 - t0), ''success'' \<mapsto> PBool True]), w3)
         | Inl e \<Rightarrow>
             ((PErr e, [''latency'' \<mapsto> PFloat (t1 - t0), ''success'' \<mapsto> PBool False,
                        ''error'' \<mapsto> PStr (error_description e)]), w3)))"

section \<open>SERPEnrichmentStep\<close>

definition attribute_error :: exn where
  "attribute_error = Exn ''AttributeError'' ''__name__''"

text \<open>
  \<open>get_params\<close>: the dictionary display evaluates the base description first, then
  \<open>self.prompt.__name__\<close>, then the conditional expression for \<open>postprocess\<close>;
  reading a missing attribute raises.
\<close>

definition get_params :: "step \<Rightarrow> exn + (string \<rightharpoonup> pyval)" where
  "get_params s =
     (let base = Step_get_params s in
      case fn_name (prompt s) of
        None \<Rightarrow> Inl attribute_error
      | Some pn \<Rightarrow>
          (case postprocess s of
             None \<Rightarrow> Inr (base(''prompt'' \<mapsto> PStr pn, ''postprocess'' \<mapsto> PNone))
           | Some p \<Rightarrow>
               (case fn_name p of
                  None \<Rightarrow> Inl attribute_error
                | Some ppn \<Rightarrow>
                    Inr (base(''prompt'' \<mapsto> PStr pn, ''postprocess'' \<mapsto> PStr ppn)))))"

definition search_request :: "env \<Rightarrow> string \<Rightarrow> http_request" where
  "search_request E q =
     \<lparr>req_method = ''POST'',
      req_url = ''https://google.serper.dev/search'',
      req_headers = [(''X-API-KEY'', environ E ''SERPAPI_API_KEY''),
                     (''Content-Type'', Some ''application/json'')],
      req_data = json_dumps E [(''q'', q)]\<rparr>"

definition get_search_results :: "env \<Rightarrow> string \<Rightarrow> world \<Rightarrow> (exn + string) \<times> world" where
  "get_search_results E q w =
     (case requests_request E (search_request E q) w of
        (Inl e, w') \<Rightarrow> (Inl e, w')
      | (Inr response, w') \<Rightarrow> (Inr (resp_text response), w'))"

text \<open>Line 91 of the source: the configured postprocess, or \<open>lambda x: x\<close>.\<close>

definition effective_postprocess :: "step \<Rightarrow> string \<Rightarrow> exn + pyval" where
  "effective_postprocess s =
     (case postprocess s of Some p \<Rightarrow> call p | None \<Rightarrow> (\<lambda>x. Inr (PStr x)))"

text \<open>Line 92 of the source: the local function \<open>fn\<close> that the wrapper instruments.\<close>

definition fn :: "env \<Rightarrow> step \<Rightarrow> string \<Rightarrow> world \<Rightarrow> (exn + pyval) \<times> world" where
  "fn E s x w =
     (case get_search_results E x w of
        (Inl e, w') \<Rightarrow> (Inl e, w')
      | (Inr t, w') \<Rightarrow> (effective_postprocess s t, w'))"

definition serp_run :: "env \<Rightarrow> step \<Rightarrow> row \<Rightarrow> world \<Rightarrow> (exn + StepResult) \<times> world" where
  "serp_run E s r w =
     (case call (prompt s) r of
        Inl e \<Rightarrow> (Inl e, w)
      | Inr search_prompt \<Rightarrow>
          (case with_statistics (fn E s) search_prompt w of
             ((result, stats), w') \<Rightarrow>
               (Inr \<lparr>fields_map = [name s \<mapsto> result], statistics = stats,
                     input = search_prompt\<rparr>, w')))"


section \<open>Concrete scenarios\<close>

text \<open>
  A stand-in for \<open>json.dumps\<close>, right for strings that need no escaping.
\<close>

definition plain_json_dumps :: "(string \<times> string) list \<Rightarrow> string" where
  "plain_json_dumps kvs =
     ''{'' @ concat (map (\<lambda>(k, v). [CHR 0x22] @ k @ [CHR 0x22] @ '': '' @ [CHR 0x22] @ v @ [CHR 0x22]) kvs) @ ''}''"

text \<open>The derivation \<open>lambda r: r["company"] + " headquarters"\<close>.\<close>

definition company_headquarters :: "(row, string) callable" where
  "company_headquarters =
     \<lparr>fn_name = Some ''<lambda>'',
      call = (\<lambda>r. case r ''company'' of
                None \<Rightarrow> Inl (Exn ''KeyError'' ''company'')
              | Some (PStr c) \<Rightarrow> Inr (c @ '' headquarters'')
              | Some _ \<Rightarrow> Inl (Exn ''TypeError'' ''unsupported operand''))\<rparr>"

definition acme_row :: row where
  "acme_row = [''company'' \<mapsto> PStr ''Acme'']"

definition empty_row :: row where
  "empty_row = Map.empty"

definition acme_step :: step where
  "acme_step = \<lparr>name = ''serp'', prompt = company_headquarters, postprocess = None\<rparr>"

text \<open>A postprocess that rejects every response, as a parser does on unexpected text.\<close>

definition strict_parse :: "(string, pyval) callable" where
  "strict_parse =
     \<lparr>fn_name = Some ''strict_parse'',
      call = (\<lambda>t. Inl (Exn ''ValueError'' ''unexpected response''))\<rparr>"

definition parsing_step :: step where
  "parsing_step = acme_step\<lparr>postprocess := Some strict_parse\<rparr>"

text \<open>Callables without \<open>__name__\<close>, as \<open>functools.partial\<close> builds them.\<close>

definition partial_prompt :: "(row, string) callable" where
  "partial_prompt = \<lparr>fn_name = None, call = (\<lambda>r. Inr ''Acme headquarters'')\<rparr>"

definition partial_postprocess :: "(string, pyval) callable" where
  "partial_postprocess = \<lparr>fn_name = None, call = (\<lambda>t. Inr (PStr (take 10 t)))\<rparr>"

definition partial_prompt_step :: step where
  "partial_prompt_step = acme_step\<lparr>prompt := partial_prompt\<rparr>"

definition partial_postprocess_step :: step where
  "partial_postprocess_step = acme_step\<lparr>postprocess := Some partial_postprocess\<rparr>"

definition acme_env :: env where
  "acme_env =
     \<lparr>environ = [''SERPAPI_API_KEY'' \<mapsto> ''k''],
      json_dumps = plain_json_dumps,
      server = (\<lambda>history rq. Inr \<lparr>status_code = 200, resp_text = ''Acme HQ is in Springfield''\<rparr>)\<rparr>"

definition timeout_env :: env where
  "timeout_env = acme_env\<lparr>server := (\<lambda>history rq. Inl (Exn ''ReadTimeout'' ''read timed out''))\<rparr>"

definition unauthorized_env :: env where
  "unauthorized_env =
     acme_env\<lparr>environ := Map.empty,
              server := (\<lambda>history rq. Inr \<lparr>status_code = 401, resp_text = ''Unauthorized.''\<rparr>)\<rparr>"

definition world0 :: world where
  "world0 = \<lparr>sent = [], clock = (\<lambda>n. real n), reads = 0\<rparr>"

text \<open>A clock that is set back between its readings: it reads 5, then 4, and so on.\<close>

definition stepped_back_world :: world where
  "stepped_back_world = \<lparr>sent = [], clock = (\<lambda>n. 5 - real n), reads = 0\<rparr>"

section \<open>The paths of a run\<close>

lemmas scenario_defs =
  acme_env_def timeout_env_def unauthorized_env_def world0_def stepped_back_world_def
  acme_step_def parsing_step_def
  partial_prompt_step_def partial_postprocess_step_def partial_prompt_def
  partial_postprocess_def strict_parse_def company_headquarters_def acme_row_def
  empty_row_def search_request_def effective_postprocess_def

text \<open>
  The three ways a run returns a result, with the result and the state written out, and
  the one way it raises.
\<close>

lemma serp_run_returned:
  assumes "call (prompt s) r = Inr x"
    and "server E (sent w) (search_request E x) = Inr response"
    and "effective_postprocess s (resp_text response) = Inr y"
  shows "serp_run E s r w =
    (Inr \<lparr>fields_map = [name s \<mapsto> y],
          statistics = [''latency'' \<mapsto> PFloat (clock w (Suc (reads w)) - clock w (reads w)),
                        ''success'' \<mapsto> PBool True],
          input = x\<rparr>,
     w\<lparr>sent := sent w @ [search_request E x], reads := Suc (Suc (reads w))\<rparr>)"
  using assms
  by (simp add: serp_run_def with_statistics_def read_clock_def fn_def
      get_search_results_def requests_request_def)

lemma serp_run_call_raised:
  assumes "call (prompt s) r = Inr x"
    and "server E (sent w) (search_request E x) = Inl e"
  shows "serp_run E s r w =
    (Inr \<lparr>fields_map = [name s \<mapsto> PErr e],
          statistics = [''latency'' \<mapsto> PFloat (clock w (Suc (reads w)) - clock w (reads w)),
                        ''success'' \<mapsto> PBool False,
                        ''error'' \<mapsto> PStr (error_description e)],
          input = x\<rparr>,
     w\<lparr>sent := sent w @ [search_request E x], reads := Suc (Suc (reads w))\<rparr>)"
  using assms
  by (simp add: serp_run_def with_statistics_def read_clock_def fn_def
      get_search_results_def requests_request_def)

lemma serp_run_postprocess_raised:
  assumes "call (prompt s) r = Inr x"
    and "server E (sent w) (search_request E x) = Inr response"
    and "effective_postprocess s (resp_text response) = Inl e"
  shows "serp_run E s r w =
    (Inr \<lparr>fields_map = [name s \<mapsto> PErr e],
          statistics = [''latency'' \<mapsto> PFloat (clock w (Suc (reads w)) - clock w (reads w)),
                        ''success'' \<mapsto> PBool False,
                        ''error'' \<mapsto> PStr (error_description e)],
          input = x\<rparr>,
     w\<lparr>sent := sent w @ [search_request E x], reads := Suc (Suc (reads w))\<rparr>)"
  using assms
  by (simp add: serp_run_def with_statistics_def read_clock_def fn_def
      get_search_results_def requests_request_def)

text \<open>Every run that returns a result went through one of the three.\<close>

lemma serp_run_returns_cases:
  assumes "serp_run E s r w = (Inr res, w')"
  obtains
    (returned) x response y where
      "call (prompt s) r = Inr x"
      "server E (sent w) (search_request E x) = Inr response"
      "effective_postprocess s (resp_text response) = Inr y"
  | (call_raised) x e where
      "call (prompt s) r = Inr x"
      "server E (sent w) (search_request E x) = Inl e"
  | (postprocess_raised) x response e where
      "call (prompt s) r = Inr x"
      "server E (sent w) (search_request E x) = Inr response"
      "effective_postprocess s (resp_text response) = Inl e"
proof (cases "call (prompt s) r")
  case (Inl e)
  with assms show ?thesis by (simp add: serp_run_def)
next
  case x: (Inr x)
  show ?thesis
  proof (cases "server E (sent w) (search_request E x)")
    case (Inl e)
    with x call_raised show ?thesis by blast
  next
    case rsp: (Inr response)
    show ?thesis
    proof (cases "effective_postprocess s (resp_text response)")
      case (Inl e)
      with x rsp postprocess_raised show ?thesis by blast
    next
      case (Inr y)
      with x rsp returned show ?thesis by blast
    qed
  qed
qed

text \<open>
  \<open>get_params\<close> in terms of the step's name and the labels of its callables only.
\<close>

lemma get_params_by_labels:
  "get_params s =
     (case fn_name (prompt s) of
        None \<Rightarrow> Inl attribute_error
      | Some pn \<Rightarrow>
          (case map_option fn_name (postprocess s) of
             None \<Rightarrow> Inr [''name'' \<mapsto> PStr (name s), ''prompt'' \<mapsto> PStr pn,
                            ''postprocess'' \<mapsto> PNone]
           | Some None \<Rightarrow> Inl attribute_error
           | Some (Some ppn) \<Rightarrow> Inr [''name'' \<mapsto> PStr (name s), ''prompt'' \<mapsto> PStr pn,
                                     ''postprocess'' \<mapsto> PStr ppn]))"
  by (simp add: get_params_def Step_get_params_def Let_def split: option.splits)

section \<open>Claims about a run\<close>

text \<open>
  C1 (as amended). If the prompt returns \<open>x\<close> on the row, the search call succeeds
  on \<open>x\<close> and the postprocess in effect (the configured one, or the identity when
  none is configured) returns \<open>y\<close> on the response text, then the run returns a
  result whose field under the step's name is \<open>y\<close> and whose statistics mark a
  success; with no postprocess configured \<open>y\<close> is the response text itself.
\<close>

theorem serp_run_success_value:
  assumes "call (prompt s) r = Inr x"
    and "server E (sent w) (search_request E x) = Inr response"
    and "effective_postprocess s (resp_text response) = Inr y"
  shows "(\<exists>res w'. serp_run E s r w = (Inr res, w') \<and>
            fields_map res (name s) = Some y \<and>
            statistics res ''success'' = Some (PBool True)) \<and>
         (postprocess s = None \<longrightarrow> y = PStr (resp_text response)) \<and>
         (\<forall>p. postprocess s = Some p \<longrightarrow> call p (resp_text response) = Inr y)"
proof -
  from assms(3) have "postprocess s = None \<longrightarrow> y = PStr (resp_text response)"
    and "\<forall>p. postprocess s = Some p \<longrightarrow> call p (resp_text response) = Inr y"
    by (auto simp: effective_postprocess_def)
  moreover from serp_run_returned [OF assms]
  have "\<exists>res w'. serp_run E s r w = (Inr res, w') \<and> fields_map res (name s) = Some y \<and>
          statistics res ''success'' = Some (PBool True)"
    by simp
  ultimately show ?thesis by blast
qed

theorem serp_run_success_value_witness:
  "call (prompt acme_step) acme_row = Inr ''Acme headquarters'' \<and>
   server acme_env (sent world0) (search_request acme_env ''Acme headquarters'') =
     Inr \<lparr>status_code = 200, resp_text = ''Acme HQ is in Springfield''\<rparr> \<and>
   (\<exists>res w'. serp_run acme_env acme_step acme_row world0 = (Inr res, w') \<and>
      fields_map res ''serp'' = Some (PStr ''Acme HQ is in Springfield'') \<and>
      statistics res ''success'' = Some (PBool True))"
proof -
  have p: "call (prompt acme_step) acme_row = Inr ''Acme headquarters''"
    by (simp add: scenario_defs)
  have c: "server acme_env (sent world0) (search_request acme_env ''Acme headquarters'') =
      Inr \<lparr>status_code = 200, resp_text = ''Acme HQ is in Springfield''\<rparr>"
    by (simp add: scenario_defs)
  have q: "effective_postprocess acme_step
      (resp_text \<lparr>status_code = 200, resp_text = ''Acme HQ is in Springfield''\<rparr>) =
      Inr (PStr ''Acme HQ is in Springfield'')"
    by (simp add: scenario_defs)
  have n: "name acme_step = ''serp''" by (simp add: scenario_defs)
  from serp_run_success_value [OF p c q] n p c show ?thesis by simp
qed

theorem serp_run_success_postprocess_counterexample:
  "call (prompt parsing_step) acme_row = Inr ''Acme headquarters'' \<and>
   fst (get_search_results acme_env ''Acme headquarters'' world0) =
     Inr ''Acme HQ is in Springfield'' \<and>
   \<not> isl (fst (serp_run acme_env parsing_step acme_row world0)) \<and>
   statistics (projr (fst (serp_run acme_env parsing_step acme_row world0))) ''success'' =
     Some (PBool False) \<and>
   fields_map (projr (fst (serp_run acme_env parsing_step acme_row world0))) ''serp'' =
     Some (PErr (Exn ''ValueError'' ''unexpected response''))"
  by (simp add: scenario_defs serp_run_def with_statistics_def read_clock_def fn_def
      get_search_results_def requests_request_def)

text \<open>
  C2. Whenever a run returns a result, on success and on failure alike, the fields of
  the result have exactly one key, the step's name.
\<close>

theorem serp_run_fields_single_key:
  assumes "serp_run E s r w = (Inr res, w')"
  shows "dom (fields_map res) = {name s}"
  using assms by (auto simp: serp_run_def split: sum.splits prod.splits if_splits)

theorem serp_run_fields_single_key_witness:
  "\<exists>res w'. serp_run timeout_env acme_step acme_row world0 = (Inr res, w') \<and>
      statistics res ''success'' = Some (PBool False) \<and>
      dom (fields_map res) = {''serp''}"
proof -
  have p: "call (prompt acme_step) acme_row = Inr ''Acme headquarters''"
    by (simp add: scenario_defs)
  have c: "server timeout_env (sent world0) (search_request timeout_env ''Acme headquarters'') =
      Inl (Exn ''ReadTimeout'' ''read timed out'')"
    by (simp add: scenario_defs)
  from serp_run_call_raised [OF p c] obtain res w' where
    run: "serp_run timeout_env acme_step acme_row world0 = (Inr res, w')"
    and st: "statistics res ''success'' = Some (PBool False)"
    by simp
  have n: "name acme_step = ''serp''" by (simp add: scenario_defs)
  from serp_run_fields_single_key [OF run] n have "dom (fields_map res) = {''serp''}"
    by simp
  with run st show ?thesis by blast
qed

text \<open>
  C3. If the prompt returns \<open>x\<close> and the search call raises on \<open>x\<close>, or the
  search call succeeds and the postprocess in effect raises on the response text, the
  run does not raise: it returns a result whose field under the step's name is the error
  as a value (which is not \<open>None\<close>), and whose statistics mark a failure and carry
  the non-empty description of the error, its kind and its message.
\<close>

theorem serp_run_failure_recorded:
  assumes "call (prompt s) r = Inr x"
    and "server E (sent w) (search_request E x) = Inl e \<or>
         (\<exists>response. server E (sent w) (search_request E x) = Inr response \<and>
            effective_postprocess s (resp_text response) = Inl e)"
  shows "\<exists>res w'. serp_run E s r w = (Inr res, w') \<and>
           fields_map res (name s) = Some (PErr e) \<and> PErr e \<noteq> PNone \<and>
           statistics res ''success'' = Some (PBool False) \<and>
           statistics res ''error'' = Some (PStr (error_description e)) \<and>
           error_description e = kind e @ '': '' @ message e \<and>
           error_description e \<noteq> []"
proof -
  have d: "error_description e = kind e @ '': '' @ message e" "error_description e \<noteq> []"
    by (simp_all add: error_description_def)
  from assms(2) show ?thesis
  proof
    assume "server E (sent w) (search_request E x) = Inl e"
    from serp_run_call_raised [OF assms(1) this] d show ?thesis by simp
  next
    assume "\<exists>response. server E (sent w) (search_request E x) = Inr response \<and>
            effective_postprocess s (resp_text response) = Inl e"
    then obtain response where "server E (sent w) (search_request E x) = Inr response"
      and "effective_postprocess s (resp_text response) = Inl e" by blast
    from serp_run_postprocess_raised [OF assms(1) this] d show ?thesis by simp
  qed
qed

theorem serp_run_failure_recorded_witness:
  "call (prompt acme_step) acme_row = Inr ''Acme headquarters'' \<and>
   server timeout_env (sent world0) (search_request timeout_env ''Acme headquarters'') =
     Inl (Exn ''ReadTimeout'' ''read timed out'') \<and>
   (\<exists>res w'. serp_run timeout_env acme_step acme_row world0 = (Inr res, w') \<and>
      fields_map res ''serp'' = Some (PErr (Exn ''ReadTimeout'' ''read timed out'')) \<and>
      statistics res ''success'' = Some (PBool False) \<and>
      statistics res ''error'' = Some (PStr ''ReadTimeout: read timed out''))"
proof -
  have p: "call (prompt acme_step) acme_row = Inr ''Acme headquarters''"
    by (simp add: scenario_defs)
  have c: "server timeout_env (sent world0) (search_request timeout_env ''Acme headquarters'') =
      Inl (Exn ''ReadTimeout'' ''read timed out'')"
    by (simp add: scenario_defs)
  have n: "name acme_step = ''serp''" by (simp add: scenario_defs)
  from serp_run_failure_recorded [OF p disjI1 [OF c]] n p c show ?thesis by auto
qed

text \<open>
  C4. If the prompt raises on the row, the run raises the same exception: no result is
  produced, so nothing is recorded in statistics, and the state is unchanged, so no
  request was sent and the clock was not read.
\<close>

theorem serp_run_prompt_error_propagates:
  assumes "call (prompt s) r = Inl e"
  shows "serp_run E s r w = (Inl e, w) \<and> sent (snd (serp_run E s r w)) = sent w \<and>
         reads (snd (serp_run E s r w)) = reads w"
  using assms by (simp add: serp_run_def)

theorem serp_run_prompt_error_propagates_witness:
  "call (prompt acme_step) empty_row = Inl (Exn ''KeyError'' ''company'') \<and>
   serp_run acme_env acme_step empty_row world0 = (Inl (Exn ''KeyError'' ''company''), world0)"
proof -
  have p: "call (prompt acme_step) empty_row = Inl (Exn ''KeyError'' ''company'')"
    by (simp add: scenario_defs)
  from serp_run_prompt_error_propagates [OF p] p show ?thesis by simp
qed

text \<open>
  C6. Whenever a run returns a result, the input of the result is the value the prompt
  returned on the row, and the one request the run sent is the search request for that
  value.
\<close>

theorem serp_run_input_is_prompt_value:
  assumes "serp_run E s r w = (Inr res, w')"
  shows "call (prompt s) r = Inr (input res) \<and>
         sent w' = sent w @ [search_request E (input res)]"
  using assms
proof (cases rule: serp_run_returns_cases)
  case (returned x response y)
  from serp_run_returned [OF this] assms returned(1) show ?thesis by auto
next
  case (call_raised x e)
  from serp_run_call_raised [OF this] assms call_raised(1) show ?thesis by auto
next
  case (postprocess_raised x response e)
  from serp_run_postprocess_raised [OF this] assms postprocess_raised(1) show ?thesis by auto
qed

theorem serp_run_input_is_prompt_value_witness:
  "\<exists>res w'. serp_run acme_env acme_step acme_row world0 = (Inr res, w') \<and>
     input res = ''Acme headquarters'' \<and>
     sent w' = [search_request acme_env ''Acme headquarters'']"
proof -
  have p: "call (prompt acme_step) acme_row = Inr ''Acme headquarters''"
    by (simp add: scenario_defs)
  have c: "server acme_env (sent world0) (search_request acme_env ''Acme headquarters'') =
      Inr \<lparr>status_code = 200, resp_text = ''Acme HQ is in Springfield''\<rparr>"
    by (simp add: scenario_defs)
  have q: "effective_postprocess acme_step
      (resp_text \<lparr>status_code = 200, resp_text = ''Acme HQ is in Springfield''\<rparr>) =
      Inr (PStr ''Acme HQ is in Springfield'')"
    by (simp add: scenario_defs)
  from serp_run_returned [OF p c q] obtain res w' where
    run: "serp_run acme_env acme_step acme_row world0 = (Inr res, w')"
    by simp
  from serp_run_input_is_prompt_value [OF run]
  have i: "call (prompt acme_step) acme_row = Inr (input res)"
    and l: "sent w' = sent world0 @ [search_request acme_env (input res)]"
    by simp_all
  from i p have "input res = ''Acme headquarters''" by simp
  moreover from this l have "sent w' = [search_request acme_env ''Acme headquarters'']"
    by (simp add: world0_def)
  ultimately show ?thesis using run by blast
qed

text \<open>
  C7. On every row and in every state, a step with no postprocess runs exactly as the
  same step with the identity function for postprocess, whatever the \<open>__name__\<close> of
  that function.
\<close>

theorem serp_run_postprocess_default_identity:
  "serp_run E (s\<lparr>postprocess := None\<rparr>) r w =
   serp_run E (s\<lparr>postprocess := Some \<lparr>fn_name = n, call = (\<lambda>x. Inr (PStr x))\<rparr>\<rparr>) r w"
proof -
  have h: "fn E (s\<lparr>postprocess := None\<rparr>) =
      fn E (s\<lparr>postprocess := Some \<lparr>fn_name = n, call = (\<lambda>x. Inr (PStr x))\<rparr>\<rparr>)"
    by (intro ext) (simp add: fn_def effective_postprocess_def split: prod.splits sum.splits)
  show ?thesis unfolding serp_run_def h
    by (simp split: sum.splits prod.splits)
qed




section \<open>Claims about the description of a step\<close>

text \<open>
  C5 (as amended). For a step whose prompt has a \<open>__name__\<close> and whose postprocess,
  when configured, has one too, \<open>get_params\<close> returns the mapping of \<open>name\<close> to the
  step's name, of \<open>prompt\<close> to the prompt's \<open>__name__\<close> and of \<open>postprocess\<close>
  to the postprocess's \<open>__name__\<close>, or to \<open>None\<close> when no postprocess is
  configured; every value is a string or \<open>None\<close>. Two steps with the same name and the
  same labels have the same description, whatever their callables compute.
\<close>

theorem get_params_labels:
  assumes "fn_name (prompt s) = Some pn"
    and "postprocess s = None \<or> (\<exists>p ppn. postprocess s = Some p \<and> fn_name p = Some ppn)"
  shows "(postprocess s = None \<longrightarrow>
            get_params s = Inr [''name'' \<mapsto> PStr (name s), ''prompt'' \<mapsto> PStr pn,
                               ''postprocess'' \<mapsto> PNone]) \<and>
         (\<forall>p ppn. postprocess s = Some p \<and> fn_name p = Some ppn \<longrightarrow>
            get_params s = Inr [''name'' \<mapsto> PStr (name s), ''prompt'' \<mapsto> PStr pn,
                               ''postprocess'' \<mapsto> PStr ppn]) \<and>
         (\<exists>m. get_params s = Inr m \<and> m ''name'' = Some (PStr (name s)) \<and>
              m ''prompt'' = Some (PStr pn) \<and>
              (m ''postprocess'' = Some PNone \<or> (\<exists>ppn. m ''postprocess'' = Some (PStr ppn)))) \<and>
         (\<forall>s'::step. name s' = name s \<and> fn_name (prompt s') = fn_name (prompt s) \<and>
               map_option fn_name (postprocess s') = map_option fn_name (postprocess s) \<longrightarrow>
               get_params s' = get_params s)"
proof -
  have none: "get_params s = Inr [''name'' \<mapsto> PStr (name s), ''prompt'' \<mapsto> PStr pn,
      ''postprocess'' \<mapsto> PNone]" if "postprocess s = None"
    using that assms(1) by (simp add: get_params_def Step_get_params_def)
  have some: "get_params s = Inr [''name'' \<mapsto> PStr (name s), ''prompt'' \<mapsto> PStr pn,
      ''postprocess'' \<mapsto> PStr ppn]" if "postprocess s = Some p" "fn_name p = Some ppn" for p ppn
    using that assms(1) by (simp add: get_params_def Step_get_params_def)
  have ex: "\<exists>m. get_params s = Inr m \<and> m ''name'' = Some (PStr (name s)) \<and>
      m ''prompt'' = Some (PStr pn) \<and>
      (m ''postprocess'' = Some PNone \<or> (\<exists>ppn. m ''postprocess'' = Some (PStr ppn)))"
    using assms(2)
  proof
    assume "postprocess s = None"
    from none [OF this] show ?thesis by simp
  next
    assume "\<exists>p ppn. postprocess s = Some p \<and> fn_name p = Some ppn"
    then obtain p ppn where "postprocess s = Some p" "fn_name p = Some ppn" by blast
    from some [OF this] show ?thesis by simp
  qed
  have det: "get_params s' = get_params s"
    if h: "name s' = name s \<and> fn_name (prompt s') = fn_name (prompt s) \<and>
      map_option fn_name (postprocess s') = map_option fn_name (postprocess s)" for s' :: step
  proof -
    from h have n: "name s' = name s" and p: "fn_name (prompt s') = fn_name (prompt s)"
      and m: "map_option fn_name (postprocess s') = map_option fn_name (postprocess s)"
      by simp_all
    show ?thesis unfolding get_params_by_labels n p m ..
  qed
  from none some ex det show ?thesis by blast
qed

theorem get_params_labels_witness:
  "fn_name (prompt parsing_step) = Some ''<lambda>'' \<and>
   postprocess parsing_step = Some strict_parse \<and>
   fn_name strict_parse = Some ''strict_parse'' \<and>
   get_params parsing_step =
     Inr [''name'' \<mapsto> PStr ''serp'', ''prompt'' \<mapsto> PStr ''<lambda>'',
          ''postprocess'' \<mapsto> PStr ''strict_parse'']"
proof -
  have a: "fn_name (prompt parsing_step) = Some ''<lambda>''"
    by (simp add: scenario_defs)
  have b: "postprocess parsing_step = Some strict_parse"
    by (simp add: scenario_defs)
  have c: "fn_name strict_parse = Some ''strict_parse''"
    by (simp add: strict_parse_def)
  have n: "name parsing_step = ''serp''"
    by (simp add: scenario_defs)
  have "postprocess parsing_step = None \<or>
      (\<exists>p ppn. postprocess parsing_step = Some p \<and> fn_name p = Some ppn)"
    using b c by blast
  from get_params_labels [OF a this] b c
  have "get_params parsing_step =
      Inr [''name'' \<mapsto> PStr (name parsing_step), ''prompt'' \<mapsto> PStr ''<lambda>'',
           ''postprocess'' \<mapsto> PStr ''strict_parse'']"
    by blast
  with a b c n show ?thesis by simp
qed

theorem get_params_partial_prompt_counterexample:
  "get_params partial_prompt_step = Inl (Exn ''AttributeError'' ''__name__'')"
  by (simp add: get_params_def scenario_defs attribute_error_def)

text \<open>
  C9. If the prompt has no \<open>__name__\<close>, or a postprocess is configured and has no
  \<open>__name__\<close>, \<open>get_params\<close> raises \<open>AttributeError\<close> instead of returning
  a description.
\<close>

theorem get_params_raises_without_name:
  assumes "fn_name (prompt s) = None \<or> (\<exists>p. postprocess s = Some p \<and> fn_name p = None)"
  shows "get_params s = Inl attribute_error \<and> kind attribute_error = ''AttributeError''"
  using assms by (auto simp: get_params_def attribute_error_def Let_def split: option.splits)

theorem get_params_raises_without_name_witness:
  "fn_name (prompt partial_postprocess_step) = Some ''<lambda>'' \<and>
   postprocess partial_postprocess_step = Some partial_postprocess \<and>
   fn_name partial_postprocess = None \<and>
   get_params partial_postprocess_step = Inl (Exn ''AttributeError'' ''__name__'')"
proof -
  have a: "fn_name (prompt partial_postprocess_step) = Some ''<lambda>''"
    by (simp add: scenario_defs)
  have b: "postprocess partial_postprocess_step = Some partial_postprocess"
    by (simp add: scenario_defs)
  have c: "fn_name partial_postprocess = None"
    by (simp add: partial_postprocess_def)
  have "fn_name (prompt partial_postprocess_step) = None \<or>
      (\<exists>p. postprocess partial_postprocess_step = Some p \<and> fn_name p = None)"
    using b c by blast
  from get_params_raises_without_name [OF this] a b c show ?thesis
    by (simp add: attribute_error_def)
qed

section \<open>Claims about the search call\<close>

text \<open>
  C10 (as amended). When the endpoint answers, whatever the status code of the
  response, \<open>_get_search_results\<close> returns the text of the response and does not
  raise; a run whose postprocess in effect returns on that text then returns a result
  whose statistics mark a success and carry no error. When the postprocess raises on
  that text the statistics mark a failure.
\<close>

theorem get_search_results_any_status:
  assumes "server E (sent w) (search_request E q) = Inr \<lparr>status_code = c, resp_text = t\<rparr>"
  shows "get_search_results E q w = (Inr t, w\<lparr>sent := sent w @ [search_request E q]\<rparr>) \<and>
         (\<forall>(s::step) r y. call (prompt s) r = Inr q \<and> effective_postprocess s t = Inr y \<longrightarrow>
            (\<exists>res w'. serp_run E s r w = (Inr res, w') \<and>
               fields_map res (name s) = Some y \<and>
               statistics res ''success'' = Some (PBool True) \<and>
               statistics res ''error'' = None))"
proof (intro conjI allI impI)
  from assms show "get_search_results E q w =
      (Inr t, w\<lparr>sent := sent w @ [search_request E q]\<rparr>)"
    by (simp add: get_search_results_def requests_request_def)
next
  fix s :: step and r y
  assume h: "call (prompt s) r = Inr q \<and> effective_postprocess s t = Inr y"
  then have "effective_postprocess s (resp_text \<lparr>status_code = c, resp_text = t\<rparr>) = Inr y"
    by simp
  from serp_run_returned [OF conjunct1 [OF h] assms this]
  show "\<exists>res w'. serp_run E s r w = (Inr res, w') \<and>
      fields_map res (name s) = Some y \<and>
      statistics res ''success'' = Some (PBool True) \<and>
      statistics res ''error'' = None"
    by simp
qed

theorem get_search_results_any_status_witness:
  "server unauthorized_env (sent world0) (search_request unauthorized_env ''Acme headquarters'') =
     Inr \<lparr>status_code = 401, resp_text = ''Unauthorized.''\<rparr> \<and>
   fst (get_search_results unauthorized_env ''Acme headquarters'' world0) =
     Inr ''Unauthorized.'' \<and>
   (\<exists>res w'. serp_run unauthorized_env acme_step acme_row world0 = (Inr res, w') \<and>
      fields_map res ''serp'' = Some (PStr ''Unauthorized.'') \<and>
      statistics res ''success'' = Some (PBool True))"
proof -
  have c: "server unauthorized_env (sent world0)
      (search_request unauthorized_env ''Acme headquarters'') =
      Inr \<lparr>status_code = 401, resp_text = ''Unauthorized.''\<rparr>"
    by (simp add: scenario_defs)
  have p: "call (prompt acme_step) acme_row = Inr ''Acme headquarters'' \<and>
      effective_postprocess acme_step ''Unauthorized.'' = Inr (PStr ''Unauthorized.'')"
    by (simp add: scenario_defs)
  have n: "name acme_step = ''serp''" by (simp add: scenario_defs)
  note g = get_search_results_any_status [OF c]
  from g have f: "fst (get_search_results unauthorized_env ''Acme headquarters'' world0) =
      Inr ''Unauthorized.''"
    by simp
  from g p obtain res w' where
    "serp_run unauthorized_env acme_step acme_row world0 = (Inr res, w')"
    "fields_map res (name acme_step) = Some (PStr ''Unauthorized.'')"
    "statistics res ''success'' = Some (PBool True)"
    by blast
  with n have "\<exists>res w'. serp_run unauthorized_env acme_step acme_row world0 = (Inr res, w') \<and>
      fields_map res ''serp'' = Some (PStr ''Unauthorized.'') \<and>
      statistics res ''success'' = Some (PBool True)"
    by auto
  with c f show ?thesis by (intro conjI)
qed

theorem get_search_results_status_postprocess_counterexample:
  "server unauthorized_env (sent world0) (search_request unauthorized_env ''Acme headquarters'') =
     Inr \<lparr>status_code = 401, resp_text = ''Unauthorized.''\<rparr> \<and>
   fst (get_search_results unauthorized_env ''Acme headquarters'' world0) =
     Inr ''Unauthorized.'' \<and>
   call (prompt parsing_step) acme_row = Inr ''Acme headquarters'' \<and>
   \<not> isl (fst (serp_run unauthorized_env parsing_step acme_row world0)) \<and>
   statistics (projr (fst (serp_run unauthorized_env parsing_step acme_row world0)))
     ''success'' = Some (PBool False) \<and>
   fields_map (projr (fst (serp_run unauthorized_env parsing_step acme_row world0)))
     ''serp'' = Some (PErr (Exn ''ValueError'' ''unexpected response''))"
proof -
  have p: "call (prompt parsing_step) acme_row = Inr ''Acme headquarters''"
    by (simp add: scenario_defs)
  have c: "server unauthorized_env (sent world0)
      (search_request unauthorized_env ''Acme headquarters'') =
      Inr \<lparr>status_code = 401, resp_text = ''Unauthorized.''\<rparr>"
    by (simp add: scenario_defs)
  have q: "effective_postprocess parsing_step
      (resp_text \<lparr>status_code = 401, resp_text = ''Unauthorized.''\<rparr>) =
      Inl (Exn ''ValueError'' ''unexpected response'')"
    by (simp add: scenario_defs)
  have n: "name parsing_step = ''serp''" by (simp add: scenario_defs)
  have g: "fst (get_search_results unauthorized_env ''Acme headquarters'' world0) =
      Inr ''Unauthorized.''"
    using c by (simp add: get_search_results_def requests_request_def)
  from serp_run_postprocess_raised [OF p c q] n p c g show ?thesis
    by simp
qed

end
